theory Spec2Isabelle
  imports Complex_Main "HOL-Library.Sublist"
begin

section \<open>Python strings\<close>

text \<open>
  A Python \<open>str\<close> is a sequence of code points. It is modelled as a HOL \<open>string\<close>,
  one \<open>char\<close> per code point, which covers the code points below 256 (Latin-1, one of
  the encodings the price files are read with). The pound sign U+00A3 is \<open>CHR 0xA3\<close>.
\<close>

text \<open>\<open>x in s\<close> for two strings: \<open>x\<close> occurs in \<open>s\<close> as a contiguous run.\<close>

fun py_in :: "string \<Rightarrow> string \<Rightarrow> bool" where
  "py_in x [] = (x = [])"
| "py_in x (c # s) = (prefix x (c # s) \<or> py_in x s)"

text \<open>
  \<open>str.lower()\<close>: below U+0100 the cased upper-case letters are A..Z and U+00C0..U+00DE
  without the multiplication sign U+00D7; each lower-case partner is 32 above, which is
  bit 5 set.
\<close>

definition py_isupper_char :: "char \<Rightarrow> bool" where
  "py_isupper_char c = (let n = (of_char c :: nat) in
     (65 \<le> n \<and> n \<le> 90) \<or> (192 \<le> n \<and> n \<le> 222 \<and> n \<noteq> 215))"

fun set_bit5 :: "char \<Rightarrow> char" where
  "set_bit5 (Char b0 b1 b2 b3 b4 b5 b6 b7) = Char b0 b1 b2 b3 b4 True b6 b7"

definition py_lower_char :: "char \<Rightarrow> char" where
  "py_lower_char c = (if py_isupper_char c then set_bit5 c else c)"

definition py_lower :: "string \<Rightarrow> string" where
  "py_lower s = map py_lower_char s"

text \<open>\<open>any(word in s for word in words)\<close>\<close>

definition any_word_in :: "string list \<Rightarrow> string \<Rightarrow> bool" where
  "any_word_in words s = list_ex (\<lambda>word. py_in word s) words"

section \<open>Department classification (\<open>categorize_specialization\<close>, both files)\<close>

definition categorize_specialization :: "string \<Rightarrow> string" where
  "categorize_specialization spec =
    (let spec_lower = py_lower spec in
     if any_word_in [''cardio'', ''heart''] spec_lower then ''Cardiology''
     else if any_word_in [''ortho'', ''bone'', ''joint'', ''knee'', ''hip'', ''spine''] spec_lower
       then ''Orthopaedics''
     else if any_word_in [''gastro'', ''hepato'', ''bowel''] spec_lower then ''Gastroenterology''
     else if any_word_in [''breast'', ''oncoplastic''] spec_lower then ''Breast Care''
     else if any_word_in [''dermat'', ''skin''] spec_lower then ''Dermatology''
     else if any_word_in [''ent'', ''ear'', ''nose'', ''throat''] spec_lower then ''ENT''
     else if any_word_in [''neuro'', ''brain''] spec_lower then ''Neurology/Neurosurgery''
     else if any_word_in [''gynae'', ''obstet'', ''women''] spec_lower then ''Women's Health''
     else if any_word_in [''physio'', ''therapy''] spec_lower then ''Physiotherapy''
     else if any_word_in [''gp'', ''general practice'', ''practitioner''] spec_lower
       then ''General Practice''
     else if any_word_in [''urol'', ''kidney'', ''renal''] spec_lower then ''Urology/Renal''
     else if any_word_in [''plastic'', ''aesthetic'', ''cosmetic''] spec_lower
       then ''Plastic Surgery''
     else ''Other Specialties'')"

text \<open>
  The specification's view of the classifier, to be compared with the code above: an
  ordered table of (keyword set, department) rules, the first matching rule wins, and
  \<open>Other Specialties\<close> when none matches.
\<close>

definition canonical_rules :: "(string list \<times> string) list" where
  "canonical_rules =
    [([''cardio'', ''heart''], ''Cardiology''),
     ([''ortho'', ''bone'', ''joint'', ''knee'', ''hip'', ''spine''], ''Orthopaedics''),
     ([''gastro'', ''hepato'', ''bowel''], ''Gastroenterology''),
     ([''breast'', ''oncoplastic''], ''Breast Care''),
     ([''dermat'', ''skin''], ''Dermatology''),
     ([''ent'', ''ear'', ''nose'', ''throat''], ''ENT''),
     ([''neuro'', ''brain''], ''Neurology/Neurosurgery''),
     ([''gynae'', ''obstet'', ''women''], ''Women's Health''),
     ([''physio'', ''therapy''], ''Physiotherapy''),
     ([''gp'', ''general practice'', ''practitioner''], ''General Practice''),
     ([''urol'', ''kidney'', ''renal''], ''Urology/Renal''),
     ([''plastic'', ''aesthetic'', ''cosmetic''], ''Plastic Surgery'')]"

fun first_match :: "(string list \<times> string) list \<Rightarrow> string \<Rightarrow> string" where
  "first_match [] s = ''Other Specialties''"
| "first_match ((keywords, department) # rules) s =
     (if any_word_in keywords s then department else first_match rules s)"

definition spec_classify :: "string \<Rightarrow> string" where
  "spec_classify spec = first_match canonical_rules (py_lower spec)"

definition departments :: "string list" where
  "departments = map snd canonical_rules @ [''Other Specialties'']"

text \<open>The keywords of the five rules listed before the ENT rule.\<close>

definition keywords_before_ent :: "string list" where
  "keywords_before_ent = concat (map fst (take 5 canonical_rules))"

section \<open>Table cells\<close>

text \<open>
  A cell of a text column of a data frame read by \<open>pd.read_csv\<close> is a string, or NaN
  for an empty field; NaN is \<open>None\<close>. A row of a price table has three cells: the
  service name and the prices of the two locations (\<open>row.iloc[0]\<close>, \<open>row.iloc[1]\<close>,
  \<open>row.iloc[2]\<close>).
\<close>

type_synonym cell = "string option"

type_synonym row = "cell \<times> cell \<times> cell"

definition isna :: "cell \<Rightarrow> bool" where
  "isna c = (c = None)"

text \<open>
  \<open>str.strip()\<close> removes leading and trailing whitespace; below U+0100 the whitespace
  characters are U+0009..U+000D, U+001C..U+0020, U+0085 and U+00A0.
\<close>

definition py_isspace_char :: "char \<Rightarrow> bool" where
  "py_isspace_char c = (let n = (of_char c :: nat) in
     (9 \<le> n \<and> n \<le> 13) \<or> (28 \<le> n \<and> n \<le> 32) \<or> n = 133 \<or> n = 160)"

definition py_strip :: "string \<Rightarrow> string" where
  "py_strip s = rev (dropWhile py_isspace_char (rev (dropWhile py_isspace_char s)))"

section \<open>The pricing page of \<open>app.py\<close>: category headers and service lines\<close>

text \<open>
  The loop over \<open>prices_df.iterrows()\<close> for the selection \<open>All\<close>. Its state is
  \<open>current_category\<close>, initially \<open>None\<close>; what it writes to the page is a list of
  category headings and service lines. A service line is recorded together with the value
  \<open>current_category\<close> holds when the line is written, which is the heading it appears
  under. \<open>or_na\<close> is \<open>x if pd.notna(x) else 'N/A'\<close>.
\<close>

datatype display = CategoryHeading string | ServiceLine "string option" string string string

definition or_na :: "cell \<Rightarrow> string" where
  "or_na c = (case c of None \<Rightarrow> ''N/A'' | Some s \<Rightarrow> s)"

text \<open>One pass through the loop body: the new \<open>current_category\<close> and what is written.\<close>

definition pricing_step ::
  "string \<Rightarrow> string option \<Rightarrow> row \<Rightarrow> string option \<times> display list" where
  "pricing_step search_price current_category row =
     (case row of (cell0, cell1, cell2) \<Rightarrow>
       (case cell0 of
          None \<Rightarrow> (current_category, [])
        | Some service_name \<Rightarrow>
            if py_strip service_name = [] then (current_category, [])
            else if isna cell1 \<and> isna cell2
              then (Some service_name, [CategoryHeading service_name])
            else if search_price \<noteq> []
                    \<and> \<not> py_in (py_lower search_price) (py_lower service_name)
              then (current_category, [])
            else (current_category,
                  [ServiceLine current_category service_name (or_na cell1) (or_na cell2)])))"

fun pricing_loop :: "string \<Rightarrow> string option \<Rightarrow> row list \<Rightarrow> display list" where
  "pricing_loop search_price current_category [] = []"
| "pricing_loop search_price current_category (row # rows) =
     (case pricing_step search_price current_category row of
        (current_category', shown) \<Rightarrow>
           shown @ pricing_loop search_price current_category' rows)"

definition pricing_page_all :: "string \<Rightarrow> row list \<Rightarrow> display list" where
  "pricing_page_all search_price prices_df = pricing_loop search_price None prices_df"

text \<open>
  The specification's vocabulary for the rows, used to state what the loop does: a row
  with a blank name is skipped, a header row is a row with a name and both prices empty,
  and the last header of a sequence of rows is the name of the most recent header row in
  it.
\<close>

definition blank_name :: "row \<Rightarrow> bool" where
  "blank_name row = (case fst row of None \<Rightarrow> True | Some s \<Rightarrow> py_strip s = [])"

definition header_row :: "row \<Rightarrow> bool" where
  "header_row row = (\<not> blank_name row \<and> fst (snd row) = None \<and> snd (snd row) = None)"

definition last_header :: "row list \<Rightarrow> string option" where
  "last_header rows = (case filter header_row (rev rows) of [] \<Rightarrow> None | row # _ \<Rightarrow> fst row)"

fun category_after :: "string option \<Rightarrow> row list \<Rightarrow> string option" where
  "category_after cur [] = cur"
| "category_after cur (row # rows) =
     category_after (if header_row row then fst row else cur) rows"

text \<open>The two rows of the specification's end-to-end example.\<close>

definition mri_rows :: "row list" where
  "mri_rows = [(Some ''MRI'', None, None),
               (Some ''Head MRI'', Some (CHR 0xA3 # ''500''),
                  Some (''From '' @ CHR 0xA3 # ''450''))]"

section \<open>Python floats\<close>

text \<open>
  A Python \<open>float\<close> is a binary double: a finite value \<open>m * 2 ^ e\<close> with
  \<open>\<bar>m\<bar> < 2 ^ 53\<close> and \<open>- 1074 \<le> e \<le> 971\<close>, an infinity, or NaN. A finite value is kept
  as the rational it is; the sign of zero is not kept. Every operation returns the double
  nearest to the exact result, a tie going to the even significand, and an infinity when
  that would be \<open>2 ^ 1024\<close> or more.
\<close>

datatype pyfloat = Finite rat | PosInf | NegInf | NaN

text \<open>The number of binary digits of a positive integer.\<close>

function bits :: "int \<Rightarrow> nat" where
  "bits n = (if n \<le> 0 then 0 else Suc (bits (n div 2)))"
  by pat_completeness auto
termination
  by (relation "measure nat") auto

declare bits.simps [simp del]

definition pow2 :: "int \<Rightarrow> rat" where
  "pow2 e = (if 0 \<le> e then 2 ^ nat e else 1 / 2 ^ nat (- e))"

text \<open>For \<open>a > 0\<close> the integer \<open>k\<close> with \<open>2 ^ k \<le> a < 2 ^ (k + 1)\<close>.\<close>

definition ilog2 :: "rat \<Rightarrow> int" where
  "ilog2 a = (if 1 \<le> a then int (bits \<lfloor>a\<rfloor>) - 1
              else - int (bits (\<lceil>1 / a\<rceil> - 1)))"

text \<open>The nearest integer, a tie going to the even one.\<close>

definition round_half_even :: "rat \<Rightarrow> int" where
  "round_half_even y =
     (let f = \<lfloor>y\<rfloor>; d = y - of_int f
      in if d < 1 / 2 then f else if 1 / 2 < d then f + 1
         else if even f then f else f + 1)"

definition nearest_double :: "rat \<Rightarrow> pyfloat" where
  "nearest_double q =
     (if q = 0 then Finite 0
      else let a = \<bar>q\<bar>;
               e = max (ilog2 a - 52) (- 1074);
               m = round_half_even (a / pow2 e);
               v = of_int m * pow2 e
           in if 971 < e \<or> (e = 971 \<and> 2 ^ 53 \<le> m)
              then (if 0 < q then PosInf else NegInf)
              else Finite (if 0 < q then v else - v))"

fun fneg :: "pyfloat \<Rightarrow> pyfloat" where
  "fneg (Finite x) = Finite (- x)"
| "fneg PosInf = NegInf"
| "fneg NegInf = PosInf"
| "fneg NaN = NaN"

fun fadd :: "pyfloat \<Rightarrow> pyfloat \<Rightarrow> pyfloat" where
  "fadd (Finite x) (Finite y) = nearest_double (x + y)"
| "fadd NaN y = NaN"
| "fadd x NaN = NaN"
| "fadd PosInf NegInf = NaN"
| "fadd NegInf PosInf = NaN"
| "fadd PosInf y = PosInf"
| "fadd x PosInf = PosInf"
| "fadd NegInf y = NegInf"
| "fadd x NegInf = NegInf"

definition fsub :: "pyfloat \<Rightarrow> pyfloat \<Rightarrow> pyfloat" where
  "fsub x y = fadd x (fneg y)"

text \<open>The sign of a float that is not NaN: \<open>True\<close> for a negative one.\<close>

fun negative :: "pyfloat \<Rightarrow> bool" where
  "negative (Finite x) = (x < 0)"
| "negative NegInf = True"
| "negative x = False"

definition signed_inf :: "bool \<Rightarrow> pyfloat" where
  "signed_inf neg = (if neg then NegInf else PosInf)"

fun fmul :: "pyfloat \<Rightarrow> pyfloat \<Rightarrow> pyfloat" where
  "fmul (Finite x) (Finite y) = nearest_double (x * y)"
| "fmul NaN y = NaN"
| "fmul x NaN = NaN"
| "fmul (Finite x) y = (if x = 0 then NaN else signed_inf ((x < 0) \<noteq> negative y))"
| "fmul x (Finite y) = (if y = 0 then NaN else signed_inf (negative x \<noteq> (y < 0)))"
| "fmul x y = signed_inf (negative x \<noteq> negative y)"

text \<open>
  Division as the processor does it, which is numpy's: a division by zero gives an
  infinity, or NaN for zero by zero. Python raises on a float division by zero; the
  divisions of the price loops are by a length that is not zero and by a price greater
  than zero.
\<close>

fun fdiv :: "pyfloat \<Rightarrow> pyfloat \<Rightarrow> pyfloat" where
  "fdiv (Finite x) (Finite y) =
     (if y = 0 then (if x = 0 then NaN else signed_inf (x < 0)) else nearest_double (x / y))"
| "fdiv NaN y = NaN"
| "fdiv x NaN = NaN"
| "fdiv (Finite x) y = Finite 0"
| "fdiv x (Finite y) = signed_inf (negative x \<noteq> (y < 0))"
| "fdiv x y = NaN"

text \<open>\<open>x > 0\<close>\<close>

fun fpositive :: "pyfloat \<Rightarrow> bool" where
  "fpositive (Finite x) = (0 < x)"
| "fpositive PosInf = True"
| "fpositive x = False"

text \<open>The conversion of an \<open>int\<close> that is not negative to a float.\<close>

definition float_of_nat :: "nat \<Rightarrow> pyfloat" where
  "float_of_nat n = nearest_double (of_nat n)"

text \<open>
  \<open>round(x, 1)\<close> of a float: the exact value is rounded to one decimal place, a tie
  going to the even digit, and the float nearest to that decimal is returned; an infinity
  and NaN are returned as they are.
\<close>

definition round1 :: "rat \<Rightarrow> rat" where
  "round1 x = of_int (round_half_even (x * 10)) / 10"

fun py_round1 :: "pyfloat \<Rightarrow> pyfloat" where
  "py_round1 (Finite x) = nearest_double (round1 x)"
| "py_round1 x = x"



text \<open>
  The built-in \<open>sum\<close> of a list of floats, started from the integer 0, as the
  left-to-right sum of floats. It is an argument of the functions that use \<open>sum\<close>, since
  an interpreter may add with a correction of the rounding error, as CPython does from
  version 3.12; such a sum is the same when no partial sum is rounded.
\<close>

definition fold_sum :: "pyfloat list \<Rightarrow> pyfloat" where
  "fold_sum xs = foldl fadd (Finite 0) xs"

section \<open>Price cells of \<open>app2.py\<close>\<close>

text \<open>
  Every price loop of the pricing page of \<open>app2.py\<close> treats a cell in the same way:
  \<^verbatim>\<open>price_str = str(price).replace(POUND, '').replace(',', '').strip()\<close> with
  \<open>POUND\<close> the pound sign, then the test
  \<^verbatim>\<open>price_str and price_str != '' and 'From' not in price_str and
  price_str.replace('.', '').isdigit()\<close>, then \<open>float(price_str)\<close> when the test holds.
  \<open>float\<close> raises \<open>ValueError\<close> on a text that is not a number.
\<close>

datatype py_error = ValueError | TypeError | AttributeError

text \<open>\<open>str(price)\<close>: the text of a cell; NaN prints as \<open>nan\<close>.\<close>

definition py_str :: "cell \<Rightarrow> string" where
  "py_str price = (case price of None \<Rightarrow> ''nan'' | Some s \<Rightarrow> s)"

text \<open>\<open>s.replace(c, '')\<close> for a one-character \<open>c\<close>: every occurrence is removed.\<close>

definition py_remove :: "char \<Rightarrow> string \<Rightarrow> string" where
  "py_remove c s = filter (\<lambda>d. d \<noteq> c) s"

definition clean_price :: "cell \<Rightarrow> string" where
  "clean_price price = py_strip (py_remove CHR '','' (py_remove (CHR 0xA3) (py_str price)))"

text \<open>
  \<open>str.isdigit()\<close>: the text is not empty and every character is a digit. Below U+0100
  the digit characters are 0..9 and the superscripts U+00B2, U+00B3 and U+00B9; only 0..9
  are decimal digits, which \<open>float\<close> accepts.
\<close>

definition py_isdecimal_char :: "char \<Rightarrow> bool" where
  "py_isdecimal_char c = (let n = (of_char c :: nat) in 48 \<le> n \<and> n \<le> 57)"

definition py_isdigit_char :: "char \<Rightarrow> bool" where
  "py_isdigit_char c = (let n = (of_char c :: nat) in
     (48 \<le> n \<and> n \<le> 57) \<or> n = 178 \<or> n = 179 \<or> n = 185)"

definition py_isdigit :: "string \<Rightarrow> bool" where
  "py_isdigit s = (s \<noteq> [] \<and> list_all py_isdigit_char s)"

definition numeric_price :: "string \<Rightarrow> bool" where
  "numeric_price price_str =
     (price_str \<noteq> [] \<and> price_str \<noteq> '''' \<and> \<not> py_in ''From'' price_str
      \<and> py_isdigit (py_remove CHR ''.'' price_str))"

text \<open>
  \<open>float(s)\<close> on the texts that reach it, which consist of digit characters and points:
  it succeeds on decimal digits with at most one point and at least one digit, and raises
  \<open>ValueError\<close> otherwise. The result is the double nearest to the decimal.
\<close>

definition digit_val :: "char \<Rightarrow> int" where
  "digit_val c = int (of_char c) - 48"

definition digits_val :: "string \<Rightarrow> int" where
  "digits_val s = foldl (\<lambda>n c. 10 * n + digit_val c) 0 s"

definition decimal_val :: "string \<Rightarrow> string \<Rightarrow> rat" where
  "decimal_val whole decimals =
     of_int (digits_val whole) + of_int (digits_val decimals) / 10 ^ length decimals"

definition py_float :: "string \<Rightarrow> py_error + pyfloat" where
  "py_float s =
     (let whole = takeWhile (\<lambda>c. c \<noteq> CHR ''.'') s;
          decimals = drop 1 (dropWhile (\<lambda>c. c \<noteq> CHR ''.'') s)
      in if list_all py_isdecimal_char whole \<and> list_all py_isdecimal_char decimals
            \<and> whole @ decimals \<noteq> []
         then Inr (nearest_double (decimal_val whole decimals))
         else Inl ValueError)"

text \<open>
  What one pass of a price loop does with a cell: \<open>Inr (Some a)\<close> when the amount \<open>a\<close>
  is appended to the list of prices, \<open>Inr None\<close> when the cell is passed over, \<open>Inl e\<close>
  when \<open>float\<close> raises \<open>e\<close>.
\<close>

definition price_amount :: "cell \<Rightarrow> py_error + pyfloat option" where
  "price_amount price =
     (let price_str = clean_price price in
      if numeric_price price_str
      then (case py_float price_str of Inl e \<Rightarrow> Inl e | Inr a \<Rightarrow> Inr (Some a))
      else Inr None)"

text \<open>The list a price loop builds from a column; the first exception ends the loop.\<close>

fun numeric_prices :: "cell list \<Rightarrow> py_error + pyfloat list" where
  "numeric_prices [] = Inr []"
| "numeric_prices (price # column) =
     (case price_amount price of
        Inl e \<Rightarrow> Inl e
      | Inr None \<Rightarrow> numeric_prices column
      | Inr (Some a) \<Rightarrow>
          (case numeric_prices column of Inl e \<Rightarrow> Inl e | Inr as \<Rightarrow> Inr (a # as)))"

text \<open>
  The average price metric of a location: \<open>sum(prices) / len(prices)\<close> when the list is
  not empty, the text \<open>Varies\<close> when it is empty and, through the bare \<open>except\<close>, when
  the loop raised. The built-in \<open>sum\<close> is the argument \<open>py_sum\<close>. The metric is the
  average before it is formatted for the page.
\<close>

datatype metric = Average pyfloat | Varies

definition avg_price :: "(pyfloat list \<Rightarrow> pyfloat) \<Rightarrow> cell list \<Rightarrow> metric" where
  "avg_price py_sum column =
     (case numeric_prices column of
        Inl e \<Rightarrow> Varies
      | Inr prices \<Rightarrow>
          if prices \<noteq> [] then Average (fdiv (py_sum prices) (float_of_nat (length prices)))
          else Varies)"

text \<open>
  The table of one category: the first row of the file's data is dropped
  (\<open>df.iloc[1:]\<close>), then the rows without a service name (\<open>dropna(subset=['Service'])\<close>).
\<close>

definition category_table :: "row list \<Rightarrow> row list" where
  "category_table df = filter (\<lambda>row. \<not> isna (fst row)) (drop 1 df)"

definition canary_wharf :: "row list \<Rightarrow> cell list" where
  "canary_wharf df = map (\<lambda>row. fst (snd row)) df"

definition orpington :: "row list \<Rightarrow> cell list" where
  "orpington df = map (\<lambda>row. snd (snd row)) df"

text \<open>The price difference loop (\<open>price_diff_data\<close>).\<close>

record price_diff =
  diff_service :: cell
  canary_wharf_price :: pyfloat
  orpington_price :: pyfloat
  difference :: pyfloat
  difference_pct :: pyfloat

definition diff_entry :: "cell \<Rightarrow> pyfloat \<Rightarrow> pyfloat \<Rightarrow> price_diff" where
  "diff_entry name canary orp =
     (let diff = fsub canary orp;
          diff_pct = (if fpositive orp then fmul (fdiv diff orp) (Finite 100) else Finite 0)
      in \<lparr>diff_service = name, canary_wharf_price = canary, orpington_price = orp,
          difference = diff, difference_pct = py_round1 diff_pct\<rparr>)"

fun price_diff_data :: "row list \<Rightarrow> py_error + price_diff list" where
  "price_diff_data [] = Inr []"
| "price_diff_data ((name, canary, orp) # df) =
     (let canary_str = clean_price canary; orp_str = clean_price orp
      in if numeric_price canary_str \<and> numeric_price orp_str
         then (case py_float canary_str of
                 Inl e \<Rightarrow> Inl e
               | Inr canary_price \<Rightarrow>
                   (case py_float orp_str of
                      Inl e \<Rightarrow> Inl e
                    | Inr orp_price \<Rightarrow>
                        (case price_diff_data df of
                           Inl e \<Rightarrow> Inl e
                         | Inr ds \<Rightarrow> Inr (diff_entry name canary_price orp_price # ds))))
         else price_diff_data df)"

text \<open>
  Vocabulary for stating what the price loops compute: the amount of a cell when the loop
  appends one (an exact price), whether a cell makes \<open>float\<close> raise, and for a row of
  the difference loop whether both prices are exact and whether the row raises.
\<close>

definition amount_of :: "cell \<Rightarrow> pyfloat option" where
  "amount_of price = (case price_amount price of Inr (Some a) \<Rightarrow> Some a | _ \<Rightarrow> None)"

definition raises :: "cell \<Rightarrow> bool" where
  "raises price = isl (price_amount price)"

definition exact_amounts :: "cell list \<Rightarrow> pyfloat list" where
  "exact_amounts column = List.map_filter amount_of column"

definition both_exact :: "row \<Rightarrow> bool" where
  "both_exact df_row =
     (amount_of (fst (snd df_row)) \<noteq> None \<and> amount_of (snd (snd df_row)) \<noteq> None)"

definition diff_raises :: "row \<Rightarrow> bool" where
  "diff_raises df_row =
     (numeric_price (clean_price (fst (snd df_row)))
      \<and> numeric_price (clean_price (snd (snd df_row)))
      \<and> (raises (fst (snd df_row)) \<or> raises (snd (snd df_row))))"

definition diff_of :: "row \<Rightarrow> price_diff" where
  "diff_of df_row =
     diff_entry (fst df_row) (the (amount_of (fst (snd df_row))))
       (the (amount_of (snd (snd df_row))))"

text \<open>A column with an exact price, a \<open>From\<close> price, an empty cell and an exact price.\<close>

definition sample_column :: "cell list" where
  "sample_column = [Some (CHR 0xA3 # ''100''), Some (''From '' @ CHR 0xA3 # ''3''), None,
                    Some ''201'']"

section \<open>Services offered by the clinicians\<close>

text \<open>
  The mapping table is used through its column \<open>Services Offered\<close>, one cell for each
  clinician: a comma-separated list of services or the text \<open>No Match\<close>. \<open>app2.py\<close>
  works on \<open>mapped_df\<close>, the rows whose cell differs from \<open>No Match\<close> (a NaN cell
  differs from it).
\<close>

definition mapped_df :: "cell list \<Rightarrow> cell list" where
  "mapped_df mapping_df = filter (\<lambda>offered. offered \<noteq> Some ''No Match'') mapping_df"

text \<open>
  The services page of \<open>app2.py\<close>: \<open>doctor_count\<close> goes up by one for each row with
  \<open>service in row['Services Offered']\<close>. On a NaN cell the operator raises
  \<open>TypeError\<close>.
\<close>

fun count_loop :: "string \<Rightarrow> nat \<Rightarrow> cell list \<Rightarrow> py_error + nat" where
  "count_loop service doctor_count [] = Inr doctor_count"
| "count_loop service doctor_count (offered # rows) =
     (case offered of
        None \<Rightarrow> Inl TypeError
      | Some text \<Rightarrow>
          count_loop service (if py_in service text then doctor_count + 1 else doctor_count)
            rows)"

definition doctor_count_app2 :: "string \<Rightarrow> cell list \<Rightarrow> py_error + nat" where
  "doctor_count_app2 service mapping_df = count_loop service 0 (mapped_df mapping_df)"

text \<open>
  The services page of \<open>app.py\<close>:
  \<^verbatim>\<open>mapping_df['Services Offered'].str.contains(service, case=False, na=False).sum()\<close>
  over all rows of the mapping. \<open>str.contains\<close> searches for \<open>service\<close> as a regular
  expression, ignoring case. A pattern without a special character of regular
  expressions matches where it occurs with the case of each character ignored; NaN counts
  as no match. A pattern with a special character is outside the model: \<open>None\<close>.
\<close>

definition regex_special :: "char \<Rightarrow> bool" where
  "regex_special c = (c \<in> set [CHR ''.'', CHR ''^'', CHR ''$'', CHR ''*'', CHR ''+'', CHR ''?'',
      CHR ''{'', CHR ''}'', CHR ''['', CHR '']'', CHR 0x5C, CHR ''|'', CHR ''('', CHR '')''])"

definition contains_nocase :: "string \<Rightarrow> cell \<Rightarrow> bool" where
  "contains_nocase pat offered =
     (case offered of None \<Rightarrow> False | Some text \<Rightarrow> py_in (py_lower pat) (py_lower text))"

definition doctor_count_app :: "string \<Rightarrow> cell list \<Rightarrow> nat option" where
  "doctor_count_app service mapping_df =
     (if list_ex regex_special service then None
      else Some (length (filter (contains_nocase service) mapping_df)))"

section \<open>Service coverage (analytics page, both files)\<close>









section \<open>Facts about strings\<close>

lemma py_in_iff: "py_in x s \<longleftrightarrow> (\<exists>ps ss. s = ps @ x @ ss)"
proof (induction s)
  case Nil
  then show ?case by auto
next
  case (Cons c s)
  have "py_in x (c # s) \<longleftrightarrow> prefix x (c # s) \<or> sublist x s"
    using Cons.IH by (simp add: sublist_def)
  also have "\<dots> \<longleftrightarrow> sublist x (c # s)"
    by (simp add: sublist_Cons_right)
  finally show ?case by (simp add: sublist_def)
qed

section \<open>Facts about floats\<close>

lemma bits_bounds: "0 < n \<Longrightarrow> 2 ^ (bits n - 1) \<le> n \<and> n < 2 ^ bits n"
proof (induction n rule: bits.induct)
  case (1 n)
  show ?case
  proof (cases "n div 2 = 0")
    case True
    with \<open>0 < n\<close> have "n = 1" by presburger
    then show ?thesis by (simp add: bits.simps)
  next
    case False
    with \<open>0 < n\<close> have pos: "0 < n div 2" by presburger
    with \<open>0 < n\<close> have ih: "2 ^ (bits (n div 2) - 1) \<le> n div 2" "n div 2 < 2 ^ bits (n div 2)"
      using "1.IH" by simp_all
    obtain b where b: "bits (n div 2) = Suc b"
      using pos by (auto simp: bits.simps [of "n div 2"])
    have n: "bits n = Suc (Suc b)"
      using \<open>0 < n\<close> b by (simp add: bits.simps [of n])
    have "(2::int) ^ Suc b \<le> 2 * (n div 2)" using ih(1) b by simp
    also have "\<dots> \<le> n" by presburger
    finally have lo: "(2::int) ^ Suc b \<le> n" .
    have "n div 2 + 1 \<le> 2 ^ Suc b" using ih(2) b by simp
    then have "2 * (n div 2) + 2 \<le> (2::int) ^ Suc (Suc b)" by simp
    moreover have "n < 2 * (n div 2) + 2" by presburger
    ultimately have hi: "n < 2 ^ Suc (Suc b)" by linarith
    from lo hi show ?thesis by (simp add: n)
  qed
qed

lemma round_half_even_int: "round_half_even (of_int z) = z"
  by (simp add: round_half_even_def)

lemma nearest_double_int:
  assumes "0 \<le> z" "z < 2 ^ 53"
  shows "nearest_double (of_int z) = Finite (of_int z)"
proof (cases "z = 0")
  case True
  then show ?thesis by (simp add: nearest_double_def)
next
  case False
  with assms(1) have pos: "0 < z" by simp
  from bits_bounds [OF pos] have lo: "2 ^ (bits z - 1) \<le> z" and hi: "z < 2 ^ bits z"
    by simp_all
  have b1: "1 \<le> bits z" using pos by (simp add: bits.simps [of z])
  have lt: "(2::int) ^ (bits z - 1) < 2 ^ 53" using lo assms(2) by linarith
  have "bits z - 1 < 53"
    by (rule power_less_imp_less_exp [OF _ lt]) simp
  then have b53: "bits z \<le> 53" by simp
  define j where "j = 53 - bits z"
  have il: "ilog2 (of_int z) = int (bits z) - 1"
    using pos by (simp add: ilog2_def)
  have e: "max (ilog2 (of_int z) - 52) (- 1074) = - int j"
    using b1 b53 by (simp add: il j_def)
  have p: "pow2 (- int j) = 1 / 2 ^ j"
    by (cases "j = 0") (simp_all add: pow2_def)
  have q: "(of_int z :: rat) / pow2 (- int j) = of_int (z * 2 ^ j)"
    by (simp add: p)
  have m: "round_half_even ((of_int z :: rat) / pow2 (- int j)) = z * 2 ^ j"
    unfolding q by (rule round_half_even_int)
  have v: "(of_int (z * 2 ^ j) :: rat) * pow2 (- int j) = of_int z"
    by (simp add: p)
  have a: "\<bar>of_int z :: rat\<bar> = of_int z" using pos by simp
  have z: "(of_int z :: rat) \<noteq> 0" "(0::rat) < of_int z" using pos by simp_all
  show ?thesis
    unfolding nearest_double_def Let_def a e m v
    using z by simp
qed


section \<open>The department classifier\<close>

lemma categorize_is_first_match: "categorize_specialization spec = spec_classify spec"
  by (simp add: categorize_specialization_def spec_classify_def canonical_rules_def Let_def)

lemma first_match_in: "first_match rules s \<in> set (map snd rules @ [''Other Specialties''])"
proof (induction rules)
  case Nil
  then show ?case by simp
next
  case (Cons rule rules)
  obtain kws department where rule: "rule = (kws, department)"
    by (cases rule)
  show ?case
    using Cons.IH by (cases "any_word_in kws s") (auto simp: rule)
qed

text \<open>
  Claim C7. The classifier is a total function of the specialization string: its value is
  the one the ordered rule table gives (lower-case the input, take the department of the
  first rule with a keyword occurring in it, \<open>Other Specialties\<close> when there is none), it
  is always one of the thirteen distinct department labels, a specialization with a
  Cardiology keyword is Cardiology whatever else it contains, and
  \<open>Cardiology Consultant\<close> is classified as Cardiology.
\<close>

theorem classify_total_first_match:
  "categorize_specialization spec = first_match canonical_rules (py_lower spec)
   \<and> categorize_specialization spec \<in> set departments
   \<and> length departments = 13 \<and> distinct departments
   \<and> (any_word_in [''cardio'', ''heart''] (py_lower spec)
        \<longrightarrow> categorize_specialization spec = ''Cardiology'')
   \<and> categorize_specialization ''Cardiology Consultant'' = ''Cardiology''"
proof -
  have eq: "categorize_specialization spec = first_match canonical_rules (py_lower spec)"
    using categorize_is_first_match [of spec] by (simp add: spec_classify_def)
  have mem: "categorize_specialization spec \<in> set departments"
    unfolding eq departments_def by (rule first_match_in)
  have len: "length departments = 13"
    by (simp add: departments_def canonical_rules_def)
  have dist: "distinct departments"
    by (simp add: departments_def canonical_rules_def)
  have card: "any_word_in [''cardio'', ''heart''] (py_lower spec)
        \<longrightarrow> categorize_specialization spec = ''Cardiology''"
    by (simp add: categorize_specialization_def Let_def)
  have ex: "categorize_specialization ''Cardiology Consultant'' = ''Cardiology''"
    by (simp add: categorize_specialization_def any_word_in_def py_lower_def
        py_lower_char_def py_isupper_char_def)
  from eq mem len dist card ex show ?thesis by blast
qed

theorem classify_total_first_match_witness:
  "any_word_in [''cardio'', ''heart''] (py_lower ''Heart and Ear Clinic'')
   \<and> any_word_in [''ent'', ''ear'', ''nose'', ''throat''] (py_lower ''Heart and Ear Clinic'')
   \<and> categorize_specialization ''Heart and Ear Clinic'' = ''Cardiology''
   \<and> categorize_specialization ''Heart and Ear Clinic'' \<in> set departments"
proof -
  have h: "any_word_in [''cardio'', ''heart''] (py_lower ''Heart and Ear Clinic'')"
    by (simp add: any_word_in_def py_lower_def py_lower_char_def py_isupper_char_def)
  have e: "any_word_in [''ent'', ''ear'', ''nose'', ''throat''] (py_lower ''Heart and Ear Clinic'')"
    by (simp add: any_word_in_def py_lower_def py_lower_char_def py_isupper_char_def)
  from h e classify_total_first_match [of "''Heart and Ear Clinic''"] show ?thesis by blast
qed

text \<open>
  Claim C10. Keywords are matched as raw substrings of the lower-cased specialization, not
  as words: a specialization in which no keyword of the five rules before ENT occurs and
  whose lower-cased text contains \<open>ent\<close> anywhere, also inside a longer word, is
  classified as ENT.
\<close>

theorem ent_substring_match:
  assumes "\<not> any_word_in keywords_before_ent (py_lower spec)"
    and "py_in ''ent'' (py_lower spec)"
  shows "categorize_specialization spec = ''ENT''"
proof -
  have "\<not> any_word_in kws (py_lower spec)"
    if "set kws \<subseteq> set keywords_before_ent" for kws
    using assms(1) that by (auto simp: any_word_in_def list_ex_iff)
  then have none: "\<not> any_word_in [''cardio'', ''heart''] (py_lower spec)"
    "\<not> any_word_in [''ortho'', ''bone'', ''joint'', ''knee'', ''hip'', ''spine''] (py_lower spec)"
    "\<not> any_word_in [''gastro'', ''hepato'', ''bowel''] (py_lower spec)"
    "\<not> any_word_in [''breast'', ''oncoplastic''] (py_lower spec)"
    "\<not> any_word_in [''dermat'', ''skin''] (py_lower spec)"
    by (simp_all add: keywords_before_ent_def canonical_rules_def)
  have ent: "any_word_in [''ent'', ''ear'', ''nose'', ''throat''] (py_lower spec)"
    using assms(2) by (simp add: any_word_in_def)
  show ?thesis
    using none ent by (simp add: categorize_specialization_def Let_def)
qed

theorem ent_substring_match_witness:
  "\<not> any_word_in keywords_before_ent (py_lower ''Dental Surgery'')
   \<and> py_in ''ent'' (py_lower ''Dental Surgery'')
   \<and> categorize_specialization ''Dental Surgery'' = ''ENT''
   \<and> categorize_specialization ''patient'' = ''ENT''"
proof -
  have a: "\<not> any_word_in keywords_before_ent (py_lower ''Dental Surgery'')"
    by (simp add: keywords_before_ent_def canonical_rules_def any_word_in_def py_lower_def
        py_lower_char_def py_isupper_char_def)
  have b: "py_in ''ent'' (py_lower ''Dental Surgery'')"
    by (simp add: py_lower_def py_lower_char_def py_isupper_char_def)
  have c: "\<not> any_word_in keywords_before_ent (py_lower ''patient'')"
    by (simp add: keywords_before_ent_def canonical_rules_def any_word_in_def py_lower_def
        py_lower_char_def py_isupper_char_def)
  have d: "py_in ''ent'' (py_lower ''patient'')"
    by (simp add: py_lower_def py_lower_char_def py_isupper_char_def)
  from a b ent_substring_match [OF a b] ent_substring_match [OF c d] show ?thesis by blast
qed

section \<open>The pricing page loop\<close>

lemma step_cat: "fst (pricing_step search cur row) =
   (if header_row row then fst row else cur)"
  by (auto simp: pricing_step_def header_row_def blank_name_def isna_def split: prod.splits option.splits)

lemma category_after_append: "category_after cur (xs @ ys) = category_after (category_after cur xs) ys"
  by (induction xs arbitrary: cur) auto

lemma header_row_Some: "header_row row \<Longrightarrow> \<exists>n. fst row = Some n"
  by (auto simp: header_row_def blank_name_def split: option.splits)

lemma category_after_last_header:
  "category_after cur rows = (case last_header rows of None \<Rightarrow> cur | Some h \<Rightarrow> Some h)"
proof (induction rows rule: rev_induct)
  case Nil
  then show ?case by (simp add: last_header_def)
next
  case (snoc row rows)
  show ?case
  proof (cases "header_row row")
    case True
    then obtain n where "fst row = Some n" using header_row_Some by blast
    with True show ?thesis by (simp add: category_after_append last_header_def)
  next
    case False
    with snoc show ?thesis by (simp add: category_after_append last_header_def)
  qed
qed

lemma pricing_loop_append:
  "pricing_loop search cur (xs @ ys) =
     pricing_loop search cur xs @ pricing_loop search (category_after cur xs) ys"
proof (induction xs arbitrary: cur)
  case Nil
  then show ?case by simp
next
  case (Cons row xs)
  obtain c shown where st: "pricing_step search cur row = (c, shown)" by (cases "pricing_step search cur row")
  have "c = (if header_row row then fst row else cur)"
    using step_cat [of search cur row] st by simp
  then show ?case using Cons.IH st by simp
qed

lemma pricing_loop_split:
  "pricing_loop search None (pre @ row # post) =
     pricing_loop search None pre @ snd (pricing_step search (last_header pre) row)
       @ pricing_loop search (last_header (pre @ [row])) post"
proof -
  have a: "category_after None xs = last_header xs" for xs
    by (simp add: category_after_last_header split: option.splits)
  have "pricing_loop search None ((pre @ [row]) @ post) =
     pricing_loop search None (pre @ [row]) @ pricing_loop search (last_header (pre @ [row])) post"
    by (simp only: pricing_loop_append a)
  moreover have "pricing_loop search None (pre @ [row]) = pricing_loop search None pre @ snd (pricing_step search (last_header pre) row)"
    by (simp add: pricing_loop_append a split: prod.splits)
  ultimately show ?thesis by simp
qed


lemma step_cases:
  "pricing_step search cur (c0, c1, c2) =
    (if blank_name (c0, c1, c2) then (cur, [])
     else if c1 = None \<and> c2 = None then (c0, [CategoryHeading (the c0)])
     else if search \<noteq> [] \<and> \<not> py_in (py_lower search) (py_lower (the c0)) then (cur, [])
     else (cur, [ServiceLine cur (the c0) (or_na c1) (or_na c2)]))"
  by (auto simp: pricing_step_def blank_name_def isna_def split: option.splits)

lemma step_ServiceLine:
  assumes "ServiceLine cat name p1 p2 \<in> set (snd (pricing_step search cur row))"
  shows "\<exists>c1 c2. row = (Some name, c1, c2) \<and> \<not> (c1 = None \<and> c2 = None) \<and> py_strip name \<noteq> []
            \<and> cat = cur \<and> p1 = or_na c1 \<and> p2 = or_na c2"
proof -
  obtain c0 c1 c2 where row: "row = (c0, c1, c2)" by (cases row)
  show ?thesis
    using assms unfolding row
    by (auto simp: step_cases blank_name_def split: if_splits option.splits)
qed

lemma loop_snoc:
  "pricing_loop search None (rows @ [row]) =
     pricing_loop search None rows @ snd (pricing_step search (last_header rows) row)"
  by (simp add: pricing_loop_append category_after_last_header split: prod.splits option.splits)

lemma emitted_from_row:
  "ServiceLine cat name p1 p2 \<in> set (pricing_loop search None rows) \<Longrightarrow>
     \<exists>pre c1 c2 post. rows = pre @ (Some name, c1, c2) # post \<and> \<not> (c1 = None \<and> c2 = None)
        \<and> py_strip name \<noteq> [] \<and> cat = last_header pre \<and> p1 = or_na c1 \<and> p2 = or_na c2"
proof (induction rows rule: rev_induct)
  case Nil
  then show ?case by simp
next
  case (snoc row rows)
  from snoc.prems consider
      (old) "ServiceLine cat name p1 p2 \<in> set (pricing_loop search None rows)"
    | (new) "ServiceLine cat name p1 p2 \<in> set (snd (pricing_step search (last_header rows) row))"
    by (auto simp: loop_snoc)
  then show ?case
  proof cases
    case old
    from snoc.IH [OF old] obtain pre c1 c2 post where
      "rows = pre @ (Some name, c1, c2) # post" "\<not> (c1 = None \<and> c2 = None)"
      "py_strip name \<noteq> []" "cat = last_header pre" "p1 = or_na c1" "p2 = or_na c2"
      by blast
    then have "rows @ [row] = pre @ (Some name, c1, c2) # (post @ [row])" by simp
    with \<open>\<not> (c1 = None \<and> c2 = None)\<close> \<open>py_strip name \<noteq> []\<close> \<open>cat = last_header pre\<close>
      \<open>p1 = or_na c1\<close> \<open>p2 = or_na c2\<close>
    show ?thesis by blast
  next
    case new
    from step_ServiceLine [OF new] obtain c1 c2 where
      "row = (Some name, c1, c2)" "\<not> (c1 = None \<and> c2 = None)" "py_strip name \<noteq> []"
      "cat = last_header rows" "p1 = or_na c1" "p2 = or_na c2"
      by blast
    then have "rows @ [row] = rows @ (Some name, c1, c2) # []" by simp
    with \<open>\<not> (c1 = None \<and> c2 = None)\<close> \<open>py_strip name \<noteq> []\<close> \<open>cat = last_header rows\<close>
      \<open>p1 = or_na c1\<close> \<open>p2 = or_na c2\<close>
    show ?thesis by blast
  qed
qed

lemma last_header_Some:
  "last_header rows = Some h \<Longrightarrow>
     \<exists>xs ys. rows = xs @ (Some h, None, None) # ys \<and> py_strip h \<noteq> []
        \<and> (\<forall>r \<in> set ys. \<not> header_row r)"
proof (induction rows rule: rev_induct)
  case Nil
  then show ?case by (simp add: last_header_def)
next
  case (snoc row rows)
  show ?case
  proof (cases "header_row row")
    case True
    with snoc.prems have "fst row = Some h" by (simp add: last_header_def)
    with True have "row = (Some h, None, None)" "py_strip h \<noteq> []"
      by (auto simp: header_row_def blank_name_def prod_eq_iff)
    then have "rows @ [row] = rows @ (Some h, None, None) # []" by simp
    with \<open>py_strip h \<noteq> []\<close> show ?thesis by fastforce
  next
    case False
    with snoc.prems have "last_header rows = Some h" by (simp add: last_header_def)
    from snoc.IH [OF this] obtain xs ys where
      "rows = xs @ (Some h, None, None) # ys" "py_strip h \<noteq> []" "\<forall>r \<in> set ys. \<not> header_row r"
      by blast
    with False have "rows @ [row] = xs @ (Some h, None, None) # (ys @ [row])"
      "\<forall>r \<in> set (ys @ [row]). \<not> header_row r" by auto
    with \<open>py_strip h \<noteq> []\<close> show ?thesis by blast
  qed
qed

lemma last_header_None: "(last_header rows = None) = (\<forall>r \<in> set rows. \<not> header_row r)"
proof (cases "filter header_row (rev rows)")
  case Nil
  then have "\<forall>r \<in> set rows. \<not> header_row r"
    by (auto simp: filter_empty_conv)
  with Nil show ?thesis by (simp add: last_header_def)
next
  case (Cons r rs)
  then have "r \<in> set (filter header_row (rev rows))" by simp
  then have r: "r \<in> set rows" "header_row r" by auto
  then have "fst r \<noteq> None" using header_row_Some [of r] by auto
  with Cons r show ?thesis by (auto simp: last_header_def)
qed



text \<open>
  Claim C9, as the code has it. Every service line written comes from a row with a name
  and not both prices empty, and is written under the name of the most recent header row
  above that row, or under no category when no header row is above it. When the category
  is \<open>h\<close>, a header row named \<open>h\<close> lies above the row with no header row in
  between. Every such row is written (without a search text), and a header row writes
  only its heading, never a service line.
\<close>

theorem entry_category_last_header:
  "(ServiceLine cat name p1 p2 \<in> set (pricing_page_all search rows) \<longrightarrow>
      (\<exists>pre c1 c2 post. rows = pre @ (Some name, c1, c2) # post
          \<and> \<not> (c1 = None \<and> c2 = None) \<and> cat = last_header pre))
   \<and> (cat = Some h \<and> ServiceLine cat name p1 p2 \<in> set (pricing_page_all search rows) \<longrightarrow>
      (\<exists>above between c1 c2 post. rows = above @ (Some h, None, None) # between @ (Some name, c1, c2) # post
          \<and> (\<forall>r \<in> set between. \<not> header_row r)))
   \<and> (py_strip name \<noteq> [] \<and> \<not> (c1 = None \<and> c2 = None) \<longrightarrow>
        pricing_page_all [] (pre @ (Some name, c1, c2) # post)
          = pricing_page_all [] pre @ [ServiceLine (last_header pre) name (or_na c1) (or_na c2)]
              @ pricing_loop [] (last_header pre) post)
   \<and> (py_strip name \<noteq> [] \<longrightarrow>
        pricing_page_all search (pre @ (Some name, None, None) # post)
          = pricing_page_all search pre @ [CategoryHeading name] @ pricing_loop search (Some name) post)"
proof -
  have a: "ServiceLine cat name p1 p2 \<in> set (pricing_page_all search rows) \<longrightarrow>
      (\<exists>pre c1 c2 post. rows = pre @ (Some name, c1, c2) # post
          \<and> \<not> (c1 = None \<and> c2 = None) \<and> cat = last_header pre)"
    using emitted_from_row [of cat name p1 p2 search rows]
    unfolding pricing_page_all_def by blast
  have b: "cat = Some h \<and> ServiceLine cat name p1 p2 \<in> set (pricing_page_all search rows) \<longrightarrow>
      (\<exists>above between c1 c2 post. rows = above @ (Some h, None, None) # between @ (Some name, c1, c2) # post
          \<and> (\<forall>r \<in> set between. \<not> header_row r))"
  proof
    assume asm: "cat = Some h \<and> ServiceLine cat name p1 p2 \<in> set (pricing_page_all search rows)"
    with a obtain pre c1 c2 post where
      rows: "rows = pre @ (Some name, c1, c2) # post" and "last_header pre = Some h"
      by auto
    from last_header_Some [OF this(2)] obtain xs ys where
      "pre = xs @ (Some h, None, None) # ys" "\<forall>r \<in> set ys. \<not> header_row r"
      by blast
    with rows have "rows = xs @ (Some h, None, None) # ys @ (Some name, c1, c2) # post"
      by simp
    with \<open>\<forall>r \<in> set ys. \<not> header_row r\<close>
    show "\<exists>above between c1 c2 post. rows = above @ (Some h, None, None) # between @ (Some name, c1, c2) # post
          \<and> (\<forall>r \<in> set between. \<not> header_row r)"
      by blast
  qed
  have hdr: "last_header (pre @ [(Some name, c1, c2)]) =
      (if header_row (Some name, c1, c2) then Some name else last_header pre)"
    by (simp add: last_header_def)
  have c: "py_strip name \<noteq> [] \<and> \<not> (c1 = None \<and> c2 = None) \<longrightarrow>
        pricing_page_all [] (pre @ (Some name, c1, c2) # post)
          = pricing_page_all [] pre @ [ServiceLine (last_header pre) name (or_na c1) (or_na c2)]
              @ pricing_loop [] (last_header pre) post"
    unfolding pricing_page_all_def pricing_loop_split
    by (auto simp: step_cases blank_name_def hdr header_row_def)
  have hdr2: "py_strip name \<noteq> [] \<Longrightarrow> last_header (pre @ [(Some name, None, None)]) = Some name"
    by (simp add: last_header_def header_row_def blank_name_def)
  have d: "py_strip name \<noteq> [] \<longrightarrow>
        pricing_page_all search (pre @ (Some name, None, None) # post)
          = pricing_page_all search pre @ [CategoryHeading name] @ pricing_loop search (Some name) post"
    unfolding pricing_page_all_def pricing_loop_split
    by (auto simp: step_cases blank_name_def hdr2)
  from a b c d show ?thesis by blast
qed

theorem entry_category_last_header_witness:
  "py_strip ''Head MRI'' \<noteq> []
   \<and> last_header [(Some ''MRI'', None, None)] = Some ''MRI''
   \<and> ServiceLine (Some ''MRI'') ''Head MRI'' (CHR 0xA3 # ''500'') (''From '' @ CHR 0xA3 # ''450'')
      \<in> set (pricing_page_all [] mri_rows)
   \<and> (\<exists>above between c1 c2 post.
         mri_rows = above @ (Some ''MRI'', None, None) # between @ (Some ''Head MRI'', c1, c2) # post
          \<and> (\<forall>r \<in> set between. \<not> header_row r))"
proof -
  note inst = entry_category_last_header [where cat = "Some ''MRI''" and name = "''Head MRI''"
      and ?p1.0 = "CHR 0xA3 # ''500''" and ?p2.0 = "''From '' @ CHR 0xA3 # ''450''"
      and search = "[]" and rows = mri_rows and h = "''MRI''"
      and ?c1.0 = "Some (CHR 0xA3 # ''500'')" and ?c2.0 = "Some (''From '' @ CHR 0xA3 # ''450'')"
      and pre = "[(Some ''MRI'', None, None)]" and post = "[]"]
  have s: "py_strip ''Head MRI'' \<noteq> []" "py_strip ''MRI'' \<noteq> []"
    by (simp_all add: py_strip_def py_isspace_char_def)
  have lh: "last_header [(Some ''MRI'', None, None)] = Some ''MRI''"
    using s by (simp add: last_header_def header_row_def blank_name_def)
  have rows: "mri_rows = [(Some ''MRI'', None, None)]
      @ (Some ''Head MRI'', Some (CHR 0xA3 # ''500''), Some (''From '' @ CHR 0xA3 # ''450'')) # []"
    by (simp add: mri_rows_def)
  have "ServiceLine (last_header [(Some ''MRI'', None, None)]) ''Head MRI''
           (or_na (Some (CHR 0xA3 # ''500''))) (or_na (Some (''From '' @ CHR 0xA3 # ''450'')))
      \<in> set (pricing_page_all [] mri_rows)"
    using inst [THEN conjunct2, THEN conjunct2, THEN conjunct1] s(1)
    unfolding rows by simp
  then have m: "ServiceLine (Some ''MRI'') ''Head MRI'' (CHR 0xA3 # ''500'')
         (''From '' @ CHR 0xA3 # ''450'') \<in> set (pricing_page_all [] mri_rows)"
    by (simp add: lh or_na_def)
  with inst [THEN conjunct2, THEN conjunct1] s(1) lh show ?thesis by blast
qed

text \<open>
  A data row that no header row precedes is written with no category: it does not belong
  to the category of a header row above it.
\<close>

theorem uncategorized_entry_counterexample:
  "pricing_page_all [] [(Some ''Head MRI'', Some ''500'', Some ''450'')]
     = [ServiceLine None ''Head MRI'' ''500'' ''450'']"
  by (simp add: pricing_page_all_def step_cases blank_name_def py_strip_def
        py_isspace_char_def or_na_def)

section \<open>The price loops of \<open>app2.py\<close>\<close>

lemmas text_defs = clean_price_def py_str_def py_remove_def py_strip_def py_isspace_char_def
  numeric_price_def py_isdigit_def py_isdigit_char_def

lemma py_in_set: "py_in x s \<Longrightarrow> set x \<subseteq> set s"
  by (auto simp: py_in_iff)

lemma price_amount_error: "price_amount price = Inl e \<Longrightarrow> e = ValueError"
  by (auto simp: price_amount_def py_float_def Let_def split: if_splits)

lemma raises_iff: "raises price = (price_amount price = Inl ValueError)"
  using price_amount_error [of price] by (cases "price_amount price") (auto simp: raises_def)

lemma amount_of_iff: "(amount_of price = Some a) = (price_amount price = Inr (Some a))"
  by (auto simp: amount_of_def split: sum.splits option.splits)

lemma price_amount_cases:
  "price_amount price =
     (if raises price then Inl ValueError else Inr (amount_of price))"
  using price_amount_error [of price]
  by (cases "price_amount price") (auto simp: raises_def amount_of_def split: option.splits)

lemma numeric_prices_eq:
  "numeric_prices column =
     (if list_ex raises column then Inl ValueError else Inr (exact_amounts column))"
proof (induction column)
  case Nil
  then show ?case by (simp add: exact_amounts_def map_filter_simps)
next
  case (Cons price column)
  show ?case
  proof (cases "raises price")
    case True
    then show ?thesis by (simp add: price_amount_cases)
  next
    case False
    then show ?thesis
      using Cons.IH
      by (cases "amount_of price")
         (simp_all add: price_amount_cases exact_amounts_def map_filter_simps)
  qed
qed

lemma numeric_amount:
  "price_amount price =
     (if numeric_price (clean_price price)
      then (case py_float (clean_price price) of Inl e \<Rightarrow> Inl e | Inr a \<Rightarrow> Inr (Some a))
      else Inr None)"
  by (simp add: price_amount_def Let_def)

lemma price_diff_data_eq:
  "price_diff_data df =
     (if list_ex diff_raises df then Inl ValueError
      else Inr (map diff_of (filter both_exact df)))"
proof (induction df)
  case Nil
  then show ?case by simp
next
  case (Cons df_row df)
  obtain name canary orp where r: "df_row = (name, canary, orp)" by (cases df_row)
  have err: "e = ValueError" if "py_float s = Inl e" for s e
    using that by (auto simp: py_float_def Let_def split: if_splits)
  show ?case
  proof (cases "numeric_price (clean_price canary) \<and> numeric_price (clean_price orp)")
    case False
    then have "\<not> both_exact df_row" "\<not> diff_raises df_row"
      by (auto simp: r both_exact_def diff_raises_def amount_of_def numeric_amount)
    with False show ?thesis using Cons.IH by (auto simp: r)
  next
    case True
    show ?thesis
    proof (cases "py_float (clean_price canary)")
      case (Inl e)
      with True have "diff_raises df_row"
        by (simp add: r diff_raises_def raises_def numeric_amount)
      with True Inl err [OF Inl] show ?thesis by (simp add: r)
    next
      case c: (Inr a)
      show ?thesis
      proof (cases "py_float (clean_price orp)")
        case (Inl e)
        with True have "diff_raises df_row"
          by (simp add: r diff_raises_def raises_def numeric_amount)
        with True c Inl err [OF Inl] show ?thesis by (simp add: r)
      next
        case (Inr b)
        with True c have "\<not> diff_raises df_row" "both_exact df_row"
          "diff_of df_row = diff_entry name a b"
          by (simp_all add: r diff_raises_def raises_def both_exact_def diff_of_def
              amount_of_def numeric_amount)
        with True c Inr show ?thesis using Cons.IH by (simp add: r)
      qed
    qed
  qed
qed

lemma from_not_numeric: "py_in ''From'' (clean_price price) \<Longrightarrow> price_amount price = Inr None"
  by (simp add: numeric_amount numeric_price_def)

lemma decimal_is_digit: "py_isdecimal_char c \<Longrightarrow> py_isdigit_char c"
  by (simp add: py_isdecimal_char_def py_isdigit_char_def Let_def)

lemma decimal_not_point: "py_isdecimal_char c \<Longrightarrow> c \<noteq> CHR ''.''"
  by (auto simp: py_isdecimal_char_def)

lemma no_from:
  assumes "\<forall>c \<in> set s. py_isdigit_char c \<or> c = CHR ''.''"
  shows "\<not> py_in ''From'' s"
proof
  assume "py_in ''From'' s"
  then have "CHR ''F'' \<in> set s" using py_in_set by fastforce
  with assms show False by (auto simp: py_isdigit_char_def)
qed

lemma digits_float:
  assumes "ds \<noteq> []" "list_all py_isdecimal_char ds"
  shows "numeric_price ds" and "py_float ds = Inr (nearest_double (of_int (digits_val ds)))"
proof -
  have all: "\<forall>c \<in> set ds. py_isdecimal_char c" using assms(2) by (simp add: list_all_iff)
  then have np: "\<forall>c \<in> set ds. c \<noteq> CHR ''.''" using decimal_not_point by blast
  have "\<not> py_in ''From'' ds"
    by (rule no_from) (use all decimal_is_digit in blast)
  moreover have "py_remove CHR ''.'' ds = ds"
    using np by (simp add: py_remove_def)
  moreover have "list_all py_isdigit_char ds"
    using all decimal_is_digit by (auto simp: list_all_iff)
  ultimately show "numeric_price ds"
    using assms(1) by (simp add: numeric_price_def py_isdigit_def)
  have tw: "takeWhile (\<lambda>c. c \<noteq> CHR ''.'') ds = ds"
    and dw: "dropWhile (\<lambda>c. c \<noteq> CHR ''.'') ds = []"
    using np by simp_all
  show "py_float ds = Inr (nearest_double (of_int (digits_val ds)))"
    unfolding py_float_def Let_def tw dw
    using assms by (simp add: decimal_val_def digits_val_def)
qed

lemma digits_amount:
  assumes "clean_price price = ds" "ds \<noteq> []" "list_all py_isdecimal_char ds"
  shows "price_amount price = Inr (Some (nearest_double (of_int (digits_val ds))))"
  using digits_float [OF assms(2,3)] assms(1) by (simp add: numeric_amount)

lemma point_amount:
  assumes "clean_price price = whole @ ''.'' @ decimals" "whole @ decimals \<noteq> []"
    "list_all py_isdecimal_char whole" "list_all py_isdecimal_char decimals"
  shows "price_amount price = Inr (Some (nearest_double (decimal_val whole decimals)))"
proof -
  let ?s = "whole @ ''.'' @ decimals"
  have w: "\<forall>c \<in> set whole. py_isdecimal_char c"
    and f: "\<forall>c \<in> set decimals. py_isdecimal_char c"
    using assms(3,4) by (simp_all add: list_all_iff)
  have npw: "\<forall>c \<in> set whole. c \<noteq> CHR ''.''"
    and npf: "\<forall>c \<in> set decimals. c \<noteq> CHR ''.''"
    using w f decimal_not_point by blast+
  have "\<not> py_in ''From'' ?s"
    by (rule no_from) (use w f decimal_is_digit in auto)
  moreover have rm: "py_remove CHR ''.'' ?s = whole @ decimals"
    using npw npf by (simp add: py_remove_def)
  moreover have "list_all py_isdigit_char (whole @ decimals)"
    using w f decimal_is_digit by (auto simp: list_all_iff)
  ultimately have num: "numeric_price ?s"
    using assms(2) by (simp add: numeric_price_def py_isdigit_def)
  have tw: "takeWhile (\<lambda>c. c \<noteq> CHR ''.'') ?s = whole"
    using npw by (simp add: takeWhile_append2)
  have dw: "dropWhile (\<lambda>c. c \<noteq> CHR ''.'') ?s = ''.'' @ decimals"
    using npw by (simp add: dropWhile_append2)
  have "py_float ?s = Inr (nearest_double (decimal_val whole decimals))"
    unfolding py_float_def Let_def tw dw
    using assms(2,3,4) by simp
  with num assms(1) show ?thesis by (simp add: numeric_amount)
qed

lemma digits_val_nonneg: "list_all py_isdecimal_char ds \<Longrightarrow> 0 \<le> digits_val ds"
proof -
  have "list_all py_isdecimal_char ds \<Longrightarrow> 0 \<le> n \<Longrightarrow>
      0 \<le> foldl (\<lambda>n c. 10 * n + digit_val c) n ds" for n
  proof (induction ds arbitrary: n)
    case Nil
    then show ?case by simp
  next
    case (Cons c ds)
    then have "0 \<le> digit_val c"
      by (simp add: py_isdecimal_char_def digit_val_def Let_def)
    with Cons.prems have "0 \<le> 10 * n + digit_val c" by simp
    with Cons show ?case by simp
  qed
  then show "list_all py_isdecimal_char ds \<Longrightarrow> 0 \<le> digits_val ds"
    by (simp add: digits_val_def)
qed

lemma whole_amount:
  assumes "clean_price price = ds" "ds \<noteq> []" "list_all py_isdecimal_char ds"
    "digits_val ds < 2 ^ 53"
  shows "price_amount price = Inr (Some (Finite (of_int (digits_val ds))))"
  using digits_amount [OF assms(1-3)] nearest_double_int [OF digits_val_nonneg [OF assms(3)] assms(4)]
  by simp

lemma other_char_no_amount:
  assumes "c \<in> set (clean_price price)" "c \<noteq> CHR ''.''" "\<not> py_isdigit_char c"
  shows "price_amount price = Inr None"
proof -
  have "c \<in> set (py_remove CHR ''.'' (clean_price price))"
    using assms(1,2) by (simp add: py_remove_def)
  with assms(3) have "\<not> list_all py_isdigit_char (py_remove CHR ''.'' (clean_price price))"
    by (auto simp: list_all_iff)
  then show ?thesis by (simp add: numeric_amount numeric_price_def py_isdigit_def)
qed

lemma no_digit_no_amount:
  assumes "py_remove CHR ''.'' (clean_price price) = []"
  shows "price_amount price = Inr None"
  using assms by (simp add: numeric_amount numeric_price_def py_isdigit_def)

text \<open>
  Claim C2, as the code has it. With the cleaned text of a cell (every pound sign and
  comma removed, whitespace trimmed): a cell whose cleaned text contains \<open>From\<close> is given
  no amount, the number after \<open>From\<close> is not read; a cell whose cleaned text is decimal
  digits with at most one point and at least one digit is given an exact amount, the
  float nearest to that decimal, which for a whole number below \<open>2 ^ 53\<close> is the number
  itself; a cell whose cleaned text is empty, has no digit, or has a character that is
  neither a digit nor a point is given no amount.
\<close>

theorem price_amount_by_text:
  "(py_in ''From'' (clean_price price) \<longrightarrow> price_amount price = Inr None)
   \<and> (clean_price price = ds \<and> ds \<noteq> [] \<and> list_all py_isdecimal_char ds \<longrightarrow>
        price_amount price = Inr (Some (nearest_double (of_int (digits_val ds)))))
   \<and> (clean_price price = ds \<and> ds \<noteq> [] \<and> list_all py_isdecimal_char ds
        \<and> digits_val ds < 2 ^ 53 \<longrightarrow>
        price_amount price = Inr (Some (Finite (of_int (digits_val ds)))))
   \<and> (clean_price price = whole @ ''.'' @ decimals \<and> whole @ decimals \<noteq> []
        \<and> list_all py_isdecimal_char whole \<and> list_all py_isdecimal_char decimals \<longrightarrow>
        price_amount price = Inr (Some (nearest_double (decimal_val whole decimals))))
   \<and> (py_remove CHR ''.'' (clean_price price) = [] \<longrightarrow> price_amount price = Inr None)
   \<and> (c \<in> set (clean_price price) \<and> c \<noteq> CHR ''.'' \<and> \<not> py_isdigit_char c \<longrightarrow>
        price_amount price = Inr None)"
  using from_not_numeric [of price] digits_amount [of price ds] whole_amount [of price ds]
    point_amount [of price whole decimals] no_digit_no_amount [of price]
    other_char_no_amount [of c price]
  by blast

theorem price_amount_by_text_witness:
  "clean_price (Some (CHR 0xA3 # ''1,200.50'')) = ''1200'' @ ''.'' @ ''50''
   \<and> price_amount (Some (CHR 0xA3 # ''1,200.50'')) = Inr (Some (Finite (2401 / 2)))
   \<and> price_amount (Some ''49.99'')
        = Inr (Some (Finite (7035467042882847 / 140737488355328)))
   \<and> price_amount (Some (CHR 0xA3 # ''500'')) = Inr (Some (Finite 500))
   \<and> price_amount (Some ''99999999999999999999'')
        = Inr (Some (Finite 100000000000000000000))
   \<and> price_amount (Some ''Call us'') = Inr None"
proof -
  have a: "clean_price (Some (CHR 0xA3 # ''1,200.50'')) = ''1200'' @ ''.'' @ ''50''"
    "clean_price (Some ''49.99'') = ''49'' @ ''.'' @ ''99''"
    "clean_price (Some (CHR 0xA3 # ''500'')) = ''500''"
    "clean_price (Some ''99999999999999999999'') = ''99999999999999999999''"
    by (simp_all add: text_defs)
  have b: "list_all py_isdecimal_char ''1200''" "list_all py_isdecimal_char ''50''"
    "list_all py_isdecimal_char ''49''" "list_all py_isdecimal_char ''99''"
    "list_all py_isdecimal_char ''500''" "list_all py_isdecimal_char ''99999999999999999999''"
    by (simp_all add: py_isdecimal_char_def)
  have c: "CHR ''C'' \<in> set (clean_price (Some ''Call us''))" "\<not> py_isdigit_char CHR ''C''"
    by (simp_all add: text_defs)
  have v: "nearest_double (decimal_val ''1200'' ''50'') = Finite (2401 / 2)"
    "nearest_double (decimal_val ''49'' ''99'')
       = Finite (7035467042882847 / 140737488355328)"
    "nearest_double (of_int (digits_val ''99999999999999999999''))
       = Finite 100000000000000000000"
    by code_simp+
  have w: "digits_val ''500'' = 500" "digits_val ''500'' < 2 ^ 53"
    by code_simp+
  note t = price_amount_by_text
  from t [of "Some (CHR 0xA3 # ''1,200.50'')" "[]" "''1200''" "''50''" "CHR ''C''"] a(1) b(1,2)
  have p1: "price_amount (Some (CHR 0xA3 # ''1,200.50'')) = Inr (Some (Finite (2401 / 2)))"
    by (simp add: v)
  from t [of "Some ''49.99''" "[]" "''49''" "''99''" "CHR ''C''"] a(2) b(3,4)
  have p2: "price_amount (Some ''49.99'')
        = Inr (Some (Finite (7035467042882847 / 140737488355328)))"
    by (simp add: v)
  from t [of "Some (CHR 0xA3 # ''500'')" "''500''" "[]" "[]" "CHR ''C''"] a(3) b(5) w(2)
  have "price_amount (Some (CHR 0xA3 # ''500''))
      = Inr (Some (Finite (of_int (digits_val ''500''))))"
    by blast
  then have p3: "price_amount (Some (CHR 0xA3 # ''500'')) = Inr (Some (Finite 500))"
    by (simp add: w(1))
  from t [of "Some ''99999999999999999999''" "''99999999999999999999''" "[]" "[]" "CHR ''C''"]
    a(4) b(6)
  have p4: "price_amount (Some ''99999999999999999999'')
        = Inr (Some (Finite 100000000000000000000))"
    by (simp add: v)
  from t [of "Some ''Call us''" "[]" "[]" "[]" "CHR ''C''"] c
  have p5: "price_amount (Some ''Call us'') = Inr None"
    by simp
  from a(1) p1 p2 p3 p4 p5 show ?thesis by blast
qed

text \<open>
  The cell \<open>From\<close> followed by a pound sign and 450: its cleaned text starts with
  \<open>From\<close>, and it is given no amount, not the amount 450.
\<close>

theorem from_price_counterexample:
  "clean_price (Some (''From '' @ CHR 0xA3 # ''450'')) = ''From 450''
   \<and> price_amount (Some (''From '' @ CHR 0xA3 # ''450'')) = Inr None
   \<and> price_amount (Some (''From '' @ CHR 0xA3 # ''450'')) \<noteq> Inr (Some (Finite 450))"
  by (simp add: numeric_amount text_defs)

text \<open>
  Claim C8 at the cell \<open>1.2.3\<close>. Removing the points leaves digits, so the test of the
  price loop holds; \<open>float\<close> then raises \<open>ValueError\<close>. The cell is not passed over: the
  loop over a column with this cell ends with the exception, and the average of the
  column is shown as \<open>Varies\<close> although the column has the exact price 100.
\<close>

theorem malformed_price_raises:
  "numeric_price (clean_price (Some ''1.2.3''))
   \<and> price_amount (Some ''1.2.3'') = Inl ValueError
   \<and> numeric_prices [Some (CHR 0xA3 # ''100''), Some ''1.2.3''] = Inl ValueError
   \<and> avg_price py_sum [Some (CHR 0xA3 # ''100''), Some ''1.2.3''] = Varies
   \<and> avg_price fold_sum [Some (CHR 0xA3 # ''100''), Some ''n/a''] = Average (Finite 100)"
proof -
  have a: "numeric_price (clean_price (Some ''1.2.3''))"
    by (simp add: text_defs)
  have b: "price_amount (Some ''1.2.3'') = Inl ValueError"
    by code_simp
  have c: "numeric_prices [Some (CHR 0xA3 # ''100''), Some ''1.2.3''] = Inl ValueError"
    by code_simp
  have d: "avg_price py_sum [Some (CHR 0xA3 # ''100''), Some ''1.2.3''] = Varies"
    by (simp only: avg_price_def c sum.case)
  have e: "avg_price fold_sum [Some (CHR 0xA3 # ''100''), Some ''n/a''] = Average (Finite 100)"
    by code_simp
  from a b c d e show ?thesis by blast
qed

text \<open>
  What the average and the difference loop compute in general. The average of a location
  is the mean of exactly the exact amounts of its column, in the order of the rows; a
  cell with \<open>From\<close> and every other cell without an exact amount contributes nothing.
  There is no average (\<open>Varies\<close>) when the column has no exact amount, or when a cell
  makes \<open>float\<close> raise. The difference loop makes one entry for exactly the rows where
  both locations have exact amounts, and none at all when a row raises.
\<close>

lemma average_of_exact_amounts:
  "avg_price py_sum column =
     (if list_ex raises column \<or> exact_amounts column = [] then Varies
      else Average (fdiv (py_sum (exact_amounts column))
                      (float_of_nat (length (exact_amounts column)))))
   \<and> exact_amounts column = map (\<lambda>price. the (amount_of price))
                               (filter (\<lambda>price. amount_of price \<noteq> None) column)
   \<and> (py_in ''From'' (clean_price price) \<longrightarrow> amount_of price = None)
   \<and> price_diff_data df =
       (if list_ex diff_raises df then Inl ValueError
        else Inr (map diff_of (filter both_exact df)))"
proof -
  have a: "avg_price py_sum column =
     (if list_ex raises column \<or> exact_amounts column = [] then Varies
      else Average (fdiv (py_sum (exact_amounts column))
                      (float_of_nat (length (exact_amounts column)))))"
    by (simp add: avg_price_def numeric_prices_eq)
  have b: "exact_amounts column = map (\<lambda>price. the (amount_of price))
                               (filter (\<lambda>price. amount_of price \<noteq> None) column)"
    by (simp add: exact_amounts_def map_filter_def comp_def)
  have c: "py_in ''From'' (clean_price price) \<longrightarrow> amount_of price = None"
    by (simp add: amount_of_def from_not_numeric)
  from a b c price_diff_data_eq [of df] show ?thesis by blast
qed

lemma sample_column_average:
  "exact_amounts sample_column = [Finite 100, Finite 201]
   \<and> avg_price fold_sum sample_column = Average (Finite (301 / 2))"
  by code_simp

text \<open>
  Claim C3 at a column with the exact price 100 and the cell \<open>1.2.3\<close>, and at two rows
  of which the first has the exact prices 100 and 80 and the second the cell \<open>1.2.3\<close>
  beside the exact price 5. The exact amounts of the column are the one amount 100, yet
  the column has no average; both prices of the first row are exact, yet the difference
  loop ends with the exception and makes no entry for it.
\<close>

theorem average_lost_on_malformed_cell:
  "exact_amounts [Some (CHR 0xA3 # ''100''), Some ''1.2.3''] = [Finite 100]
   \<and> avg_price py_sum [Some (CHR 0xA3 # ''100''), Some ''1.2.3''] = Varies
   \<and> avg_price fold_sum [Some (CHR 0xA3 # ''100'')] = Average (Finite 100)
   \<and> both_exact (Some ''Scan'', Some (CHR 0xA3 # ''100''), Some (CHR 0xA3 # ''80''))
   \<and> price_diff_data [(Some ''Scan'', Some (CHR 0xA3 # ''100''), Some (CHR 0xA3 # ''80'')),
                       (Some ''Other'', Some ''1.2.3'', Some (CHR 0xA3 # ''5''))]
        = Inl ValueError"
proof -
  have a: "exact_amounts [Some (CHR 0xA3 # ''100''), Some ''1.2.3''] = [Finite 100]"
    by code_simp
  have "numeric_prices [Some (CHR 0xA3 # ''100''), Some ''1.2.3''] = Inl ValueError"
    by code_simp
  then have b: "avg_price py_sum [Some (CHR 0xA3 # ''100''), Some ''1.2.3''] = Varies"
    by (simp only: avg_price_def sum.case)
  have c: "avg_price fold_sum [Some (CHR 0xA3 # ''100'')] = Average (Finite 100)"
    by code_simp
  have d: "both_exact (Some ''Scan'', Some (CHR 0xA3 # ''100''), Some (CHR 0xA3 # ''80''))"
    by code_simp
  have e: "price_diff_data [(Some ''Scan'', Some (CHR 0xA3 # ''100''), Some (CHR 0xA3 # ''80'')),
                       (Some ''Other'', Some ''1.2.3'', Some (CHR 0xA3 # ''5''))]
        = Inl ValueError"
    by code_simp
  from a b c d e show ?thesis by blast
qed

text \<open>
  Claim C4, as the code has it. The two rows give one category heading \<open>MRI\<close> and one
  service line under it; the Canary Wharf cell is the exact amount 500; the Orpington
  cell contains \<open>From\<close> and is given no amount; the table of the category has the one
  row, and the difference loop makes no entry for it, since its Orpington price is not
  exact. With the exact Orpington price 450 the entry has difference 50 and percentage
  11.1, the float nearest to it. The average of the Canary Wharf column is 500 and the
  Orpington column has no average.
\<close>

theorem mri_example:
  "pricing_page_all [] mri_rows =
      [CategoryHeading ''MRI'',
       ServiceLine (Some ''MRI'') ''Head MRI'' (CHR 0xA3 # ''500'')
         (''From '' @ CHR 0xA3 # ''450'')]
   \<and> category_table mri_rows =
      [(Some ''Head MRI'', Some (CHR 0xA3 # ''500''), Some (''From '' @ CHR 0xA3 # ''450''))]
   \<and> price_amount (Some (CHR 0xA3 # ''500'')) = Inr (Some (Finite 500))
   \<and> py_in ''From'' (clean_price (Some (''From '' @ CHR 0xA3 # ''450'')))
   \<and> price_amount (Some (''From '' @ CHR 0xA3 # ''450'')) = Inr None
   \<and> avg_price fold_sum (canary_wharf (category_table mri_rows)) = Average (Finite 500)
   \<and> avg_price py_sum (orpington (category_table mri_rows)) = Varies
   \<and> price_diff_data (category_table mri_rows) = Inr []
   \<and> price_diff_data [(Some ''Head MRI'', Some (CHR 0xA3 # ''500''), Some (CHR 0xA3 # ''450''))]
       = Inr [\<lparr>diff_service = Some ''Head MRI'', canary_wharf_price = Finite 500,
                orpington_price = Finite 450, difference = Finite 50,
                difference_pct = nearest_double (111 / 10)\<rparr>]
   \<and> nearest_double (111 / 10) = Finite (6248744482976563 / 562949953421312)"
proof -
  have a: "pricing_page_all [] mri_rows =
      [CategoryHeading ''MRI'',
       ServiceLine (Some ''MRI'') ''Head MRI'' (CHR 0xA3 # ''500'')
         (''From '' @ CHR 0xA3 # ''450'')]"
    by (simp add: pricing_page_all_def mri_rows_def step_cases blank_name_def py_strip_def
        py_isspace_char_def or_na_def)
  have b: "category_table mri_rows =
      [(Some ''Head MRI'', Some (CHR 0xA3 # ''500''), Some (''From '' @ CHR 0xA3 # ''450''))]"
    by (simp add: category_table_def mri_rows_def isna_def)
  have c: "price_amount (Some (CHR 0xA3 # ''500'')) = Inr (Some (Finite 500))"
    by code_simp
  have d: "py_in ''From'' (clean_price (Some (''From '' @ CHR 0xA3 # ''450'')))"
    by (simp add: text_defs)
  have e: "price_amount (Some (''From '' @ CHR 0xA3 # ''450'')) = Inr None"
    by (simp add: numeric_amount text_defs)
  have h: "avg_price fold_sum (canary_wharf (category_table mri_rows)) = Average (Finite 500)"
    by code_simp
  have "numeric_prices (orpington (category_table mri_rows)) = Inr []"
    by code_simp
  then have i: "avg_price py_sum (orpington (category_table mri_rows)) = Varies"
    by (simp add: avg_price_def)
  have f: "price_diff_data (category_table mri_rows) = Inr []"
    by code_simp
  have g: "price_diff_data [(Some ''Head MRI'', Some (CHR 0xA3 # ''500''), Some (CHR 0xA3 # ''450''))]
       = Inr [\<lparr>diff_service = Some ''Head MRI'', canary_wharf_price = Finite 500,
                orpington_price = Finite 450, difference = Finite 50,
                difference_pct = nearest_double (111 / 10)\<rparr>]"
    by code_simp
  have j: "nearest_double (111 / 10) = Finite (6248744482976563 / 562949953421312)"
    by code_simp
  from a b c d e f g h i j show ?thesis by blast
qed

theorem mri_example_witness:
  "price_diff_data (category_table mri_rows) = Inr []
   \<and> price_amount (Some (''From '' @ CHR 0xA3 # ''450'')) = Inr None"
  using mri_example [of fold_sum] by blast

text \<open>
  For the two rows of the example no price difference is computed: the list of
  differences is empty, it does not hold an entry with difference 50.
\<close>

theorem mri_difference_counterexample:
  "price_diff_data mri_rows = Inr []
   \<and> price_diff_data (category_table mri_rows) = Inr []
   \<and> price_diff_data (category_table mri_rows)
       \<noteq> Inr [\<lparr>diff_service = Some ''Head MRI'', canary_wharf_price = Finite 500,
                orpington_price = Finite 450, difference = Finite 50,
                difference_pct = nearest_double (111 / 10)\<rparr>]"
proof -
  have "price_diff_data mri_rows = Inr []" "price_diff_data (category_table mri_rows) = Inr []"
    by code_simp+
  then show ?thesis by simp
qed

text \<open>
  The percentage is computed and rounded in floats: for the prices 103 and 80 it is 28.7,
  where the exact quotient 28.75 would round to 28.8.
\<close>

lemma difference_pct_in_floats:
  "difference_pct (diff_entry None (Finite 103) (Finite 80)) = nearest_double (287 / 10)
   \<and> round1 (23 / 80 * 100) = 144 / 5"
  by code_simp

section \<open>Counting clinicians and coverage\<close>

lemma count_loop_eq:
  "count_loop service n (map Some texts) = Inr (n + length (filter (py_in service) texts))"
  by (induction texts arbitrary: n) simp_all

lemma py_lower_append: "py_lower (xs @ ys) = py_lower xs @ py_lower ys"
  by (simp add: py_lower_def)






text \<open>
  How the two services pages count the clinicians of a service: by the rows in whose raw
  text the service name occurs as a contiguous run of characters, not by the rows that
  list the service as an item. \<open>app2.py\<close> compares the characters as they are, over
  the rows other than \<open>No Match\<close>; \<open>app.py\<close> ignores their case, for a name
  without special characters of regular expressions. So a service whose name is part of a
  longer service name is counted for a clinician whose text is the longer name.
\<close>

lemma doctor_count_by_substring:
  "(mapped_df mapping_df = map Some texts \<longrightarrow>
      doctor_count_app2 service mapping_df =
        Inr (length (filter (\<lambda>text. \<exists>before after. text = before @ service @ after) texts)))
   \<and> (\<not> list_ex regex_special service \<longrightarrow>
      doctor_count_app service mapping_df =
        Some (length (filter (\<lambda>offered. \<exists>text before after. offered = Some text
                 \<and> py_lower text = before @ py_lower service @ after) mapping_df)))
   \<and> (longer = before @ service @ after \<and> longer \<noteq> ''No Match'' \<longrightarrow>
        doctor_count_app2 service [Some longer] = Inr 1)
   \<and> (longer = before @ service @ after \<and> \<not> list_ex regex_special service \<longrightarrow>
        doctor_count_app service [Some longer] = Some 1)"
proof -
  have a: "mapped_df mapping_df = map Some texts \<longrightarrow>
      doctor_count_app2 service mapping_df =
        Inr (length (filter (\<lambda>text. \<exists>before after. text = before @ service @ after) texts))"
  proof -
    have "py_in service = (\<lambda>text. \<exists>before after. text = before @ service @ after)"
      by (simp add: fun_eq_iff py_in_iff)
    then show ?thesis
      by (simp add: doctor_count_app2_def count_loop_eq)
  qed
  have "contains_nocase service offered =
      (\<exists>text before after. offered = Some text
          \<and> py_lower text = before @ py_lower service @ after)" for offered
    by (cases offered) (simp_all add: contains_nocase_def py_in_iff)
  then have "contains_nocase service =
      (\<lambda>offered. \<exists>text before after. offered = Some text
          \<and> py_lower text = before @ py_lower service @ after)"
    by (simp only: fun_eq_iff) blast
  then have b: "\<not> list_ex regex_special service \<longrightarrow>
      doctor_count_app service mapping_df =
        Some (length (filter (\<lambda>offered. \<exists>text before after. offered = Some text
                 \<and> py_lower text = before @ py_lower service @ after) mapping_df))"
    by (simp add: doctor_count_app_def)
  have in_longer: "py_in service (before @ service @ after)"
    unfolding py_in_iff by blast
  have c: "longer = before @ service @ after \<and> longer \<noteq> ''No Match'' \<longrightarrow>
        doctor_count_app2 service [Some longer] = Inr 1"
    using in_longer by (simp add: doctor_count_app2_def mapped_df_def)
  have "py_in (py_lower service) (py_lower (before @ service @ after))"
    unfolding py_in_iff py_lower_append by blast
  then have d: "longer = before @ service @ after \<and> \<not> list_ex regex_special service \<longrightarrow>
        doctor_count_app service [Some longer] = Some 1"
    by (simp add: doctor_count_app_def contains_nocase_def)
  from a b c d show ?thesis by blast
qed

lemma doctor_count_longer_name:
  "''Cardiac MRI'' = ''Cardiac '' @ ''MRI'' @ [] \<and> ''Cardiac MRI'' \<noteq> ''No Match''
   \<and> \<not> list_ex regex_special ''MRI''
   \<and> doctor_count_app2 ''MRI'' [Some ''Cardiac MRI''] = Inr 1
   \<and> doctor_count_app ''MRI'' [Some ''Cardiac MRI''] = Some 1"
proof -
  have a: "''Cardiac MRI'' = ''Cardiac '' @ ''MRI'' @ []" "''Cardiac MRI'' \<noteq> ''No Match''"
    "\<not> list_ex regex_special ''MRI''"
    by (simp_all add: regex_special_def)
  from doctor_count_by_substring [of "[]" "[]" "''MRI''" "''Cardiac MRI''" "''Cardiac ''" "[]"] a
  show ?thesis by blast
qed

text \<open>
  Claim C5 at the service \<open>mri\<close> and one clinician with the text \<open>MRI\<close>. The
  text contains the name when case is ignored, and \<open>app.py\<close> counts the clinician;
  the loop of \<open>app2.py\<close> compares with case and counts nobody. Both count a
  clinician whose text is \<open>Cardiac MRI\<close> for the service \<open>MRI\<close>.
\<close>

theorem case_sensitive_count:
  "contains_nocase ''mri'' (Some ''MRI'')
   \<and> doctor_count_app ''mri'' [Some ''MRI''] = Some 1
   \<and> doctor_count_app2 ''mri'' [Some ''MRI''] = Inr 0
   \<and> doctor_count_app ''MRI'' [Some ''Cardiac MRI''] = Some 1
   \<and> doctor_count_app2 ''MRI'' [Some ''Cardiac MRI''] = Inr 1"
  by code_simp




end
